theory Spec2Isabelle
  imports Main "HOL-Library.Word" "HOL-Library.AList"
begin

section \<open>The connection core (connection.go)\<close>

subsection \<open>Data\<close>

type_synonym byte = "8 word"

text \<open>
  A Go \<open>error\<close> value. \<open>io.EOF\<close> is told apart from the errors that
  \<open>fmt.Errorf\<close> builds, which are known by their message.
\<close>

datatype error = EOF | Errorf string

fun Error :: "error \<Rightarrow> string" where
  "Error EOF = ''EOF''"
| "Error (Errorf s) = s"

text \<open>The two \<open>panic\<close> calls of connection.go, with the request ID they format.\<close>

datatype panic =
    AlreadyHaveCancelFunc "64 word"
  | UnknownRequestID "64 word"

text \<open>
  \<open>fuseshim.Message\<close>: the header fields that the connection reads, and the payload.
\<close>

record header =
  Opcode :: "32 word"
  Unique :: "64 word"

record message =
  Hdr :: header
  Data :: "byte list"

text \<open>
  A context is the parent context or a child made by \<open>context.WithCancel\<close>. The
  cancel function that \<open>WithCancel\<close> returns is known by a number, the identity of
  the closure; calling it is the event \<open>EvCancel\<close> of that number.
\<close>

datatype Context = Background | WithCancel Context nat

text \<open>The effects of the connection on its surroundings and on its map, in program order.\<close>

datatype event =
    EvRecord "64 word" nat
  | EvCancel nat
  | EvDelete "64 word"
  | EvDebugLog "32 word" string
  | EvErrorLog string
  | EvWriteToKernel "byte list"
  | EvDestroy message

text \<open>
  \<open>Connection\<close>. The loggers may be nil: the fields say whether they are set. The
  wrapped \<open>fuseshim.Conn\<close> is present through \<open>writeResult\<close>, the error (or nil)
  that its \<open>WriteToKernel\<close> returns for a reply, and through the list of messages
  that \<open>ReadOp\<close> is given. \<open>nextCancel\<close> numbers the cancel functions made so far
  and \<open>trace\<close> holds the events so far.
\<close>

record Connection =
  debugLogger :: bool
  errorLogger :: bool
  parentCtx :: Context
  nextOpID :: "32 word"
  cancelFuncs :: "64 word \<rightharpoonup> nat"
  writeResult :: "byte list \<Rightarrow> error option"
  nextCancel :: nat
  trace :: "event list"

text \<open>
  Modelled from the spec: the integer opcode tag \<open>fusekernel.OpForget\<close> (package
  internal/fusekernel is not under src/). The spec names the tag without its value; the
  value is that of the kernel protocol.
\<close>

definition OpForget :: "32 word" where
  "OpForget = 2"

text \<open>
  Modelled from the spec: the opcode tags \<open>fusekernel.OpStatfs\<close> and
  \<open>fusekernel.OpInterrupt\<close> (package internal/fusekernel is not under src/), with
  the values of the kernel protocol. The connection never reads them: it tells statfs and
  interrupt ops apart by the type of the converted op.
\<close>

definition OpStatfs :: "32 word" where
  "OpStatfs = 17"

definition OpInterrupt :: "32 word" where
  "OpInterrupt = 36"

definition emit :: "event \<Rightarrow> Connection \<Rightarrow> Connection" where
  "emit e c = c\<lparr>trace := trace c @ [e]\<rparr>"

text \<open>\<open>newConnection\<close>: an empty map, op IDs from zero.\<close>

definition newConnection ::
  "Context \<Rightarrow> bool \<Rightarrow> bool \<Rightarrow> (byte list \<Rightarrow> error option) \<Rightarrow> Connection" where
  "newConnection ctx dbg err wr =
     \<lparr>debugLogger = dbg, errorLogger = err, parentCtx = ctx, nextOpID = 0,
      cancelFuncs = Map.empty, writeResult = wr, nextCancel = 0, trace = []\<rparr>"

subsection \<open>The cancellation registry\<close>

definition recordCancelFunc :: "64 word \<Rightarrow> nat \<Rightarrow> Connection \<Rightarrow> panic + Connection" where
  "recordCancelFunc fuseID f c =
     (case cancelFuncs c fuseID of
        Some _ \<Rightarrow> Inl (AlreadyHaveCancelFunc fuseID)
      | None \<Rightarrow> Inr (emit (EvRecord fuseID f) (c\<lparr>cancelFuncs := (cancelFuncs c)(fuseID \<mapsto> f)\<rparr>)))"

definition beginOp :: "32 word \<Rightarrow> 64 word \<Rightarrow> Connection \<Rightarrow> panic + (Connection \<times> Context)" where
  "beginOp opCode fuseID c =
     (if opCode \<noteq> OpForget then
        (let cancel = nextCancel c;
             ctx = WithCancel (parentCtx c) cancel
         in case recordCancelFunc fuseID cancel (c\<lparr>nextCancel := Suc (nextCancel c)\<rparr>) of
              Inl p \<Rightarrow> Inl p
            | Inr c' \<Rightarrow> Inr (c', ctx))
      else Inr (c, parentCtx c))"

definition finishOp :: "32 word \<Rightarrow> 64 word \<Rightarrow> Connection \<Rightarrow> panic + Connection" where
  "finishOp opCode fuseID c =
     (if opCode \<noteq> OpForget then
        (case cancelFuncs c fuseID of
           None \<Rightarrow> Inl (UnknownRequestID fuseID)
         | Some cancel \<Rightarrow>
             (let c1 = emit (EvCancel cancel) c
              in Inr (emit (EvDelete fuseID) (c1\<lparr>cancelFuncs := (cancelFuncs c1)(fuseID := None)\<rparr>))))
      else Inr c)"

definition handleInterrupt :: "64 word \<Rightarrow> Connection \<Rightarrow> Connection" where
  "handleInterrupt fuseID c =
     (case cancelFuncs c fuseID of
        None \<Rightarrow> c
      | Some cancel \<Rightarrow> emit (EvCancel cancel) c)"

subsection \<open>Typed ops\<close>

text \<open>
  Package fuseops is not under src/. \<open>ReadOp\<close> tells three kinds of typed op apart
  (by a type assertion), and \<open>sendReply\<close> asks an op for its short description and
  its debug string. \<open>decoded\<close> is what the conversion of a frame yields; an \<open>Op\<close>
  also holds what \<open>ReadOp\<close> hands to the conversion and what its closures capture:
  the op's context, the frame \<open>m\<close> and the logging ID \<open>opID\<close>.
\<close>

datatype optype = InternalStatFSOp | InternalInterruptOp "64 word" | UserOp

record decoded =
  kind :: optype
  ShortDesc :: string
  DebugString :: string

record Op = decoded +
  opCtx :: Context
  frame :: message
  logOpID :: "32 word"

subsection \<open>Logging and the wire\<close>

text \<open>
  \<open>debugLog\<close>: nothing without a debug logger; otherwise one line for the op ID. The
  file:line tag that \<open>runtime.Caller\<close> finds is left out of the line.
\<close>

definition debugLog :: "32 word \<Rightarrow> string \<Rightarrow> Connection \<Rightarrow> Connection" where
  "debugLog opID msg c = (if \<not> debugLogger c then c else emit (EvDebugLog opID msg) c)"

text \<open>
  Modelled from the spec: the op's \<open>Logf\<close> (package fuseops is not under src/), the
  "log sink binding" of a typed op: it forwards to the \<open>debugLogForOp\<close> closure that
  \<open>ReadOp\<close> gave to the conversion, which calls \<open>debugLog\<close> with that ID.
\<close>

definition Logf :: "Op \<Rightarrow> string \<Rightarrow> Connection \<Rightarrow> Connection" where
  "Logf op msg c = debugLog (logOpID op) msg c"

definition WriteToKernel :: "byte list \<Rightarrow> Connection \<Rightarrow> Connection \<times> error option" where
  "WriteToKernel msg c = (emit (EvWriteToKernel msg) c, writeResult c msg)"

definition Destroy :: "message \<Rightarrow> Connection \<Rightarrow> Connection" where
  "Destroy m c = emit (EvDestroy m) c"

subsection \<open>The reply closure\<close>

text \<open>
  \<open>sendReply\<close> is the closure that \<open>ReadOp\<close> makes for the message \<open>m\<close>; its
  parameters are \<open>op\<close>, \<open>fuseID\<close>, \<open>replyMsg\<close> and \<open>opErr\<close>. A panic of
  \<open>finishOp\<close> aborts the process: the result is then the panic alone, without the
  connection, and the deferred \<open>m.Destroy()\<close> that runs while the panic unwinds is not
  recorded.
\<close>

definition sendReply ::
  "message \<Rightarrow> Op \<Rightarrow> 64 word \<Rightarrow> byte list \<Rightarrow> error option \<Rightarrow> Connection
     \<Rightarrow> panic + (Connection \<times> error option)" where
  "sendReply m op fuseID replyMsg opErr c =
     (case finishOp (Opcode (Hdr m)) (Unique (Hdr m)) c of
        Inl p \<Rightarrow> Inl p
      | Inr c1 \<Rightarrow>
          (let c2 = (if debugLogger c1 then
                       (case opErr of
                          None \<Rightarrow> Logf op (''-> OK: '' @ DebugString op) c1
                        | Some e \<Rightarrow> Logf op (''-> error: '' @ Error e) c1)
                     else c1);
               c3 = (case opErr of
                       None \<Rightarrow> c2
                     | Some e \<Rightarrow>
                         if errorLogger c2
                         then emit (EvErrorLog (''('' @ ShortDesc op @ '') error: '' @ Error e)) c2
                         else c2);
               (c4, err) = WriteToKernel replyMsg c3;
               err' = (case err of
                         None \<Rightarrow> None
                       | Some e \<Rightarrow> Some (Errorf (''WriteToKernel: '' @ Error e)))
           in Inr (Destroy m c4, err')))"

text \<open>
  Modelled from the spec: the typed op's \<open>Respond\<close> (package fuseops is not under
  src/), "a Respond(error?) hook that eventually calls the reply closure": one call of
  the closure that \<open>ReadOp\<close> made for the op's frame, with the op, the frame's unique
  ID, the reply bytes of the codec (the parameter \<open>kernelResponse\<close>) and the error.
\<close>

definition Respond ::
  "(Op \<Rightarrow> error option \<Rightarrow> byte list) \<Rightarrow> Op \<Rightarrow> error option \<Rightarrow> Connection \<Rightarrow> panic + Connection" where
  "Respond kernelResponse op err c =
     (case sendReply (frame op) op (Unique (Hdr (frame op))) (kernelResponse op err) err c of
        Inl p \<Rightarrow> Inl p
      | Inr (c', replyErr) \<Rightarrow> Inr c')"

subsection \<open>The reader loop\<close>

text \<open>
  \<open>ReadOp\<close>. The conversion \<open>fuseops.Convert\<close> is a parameter (package fuseops is not
  under src/): from a message to an error, and then no op, or to what the op is. The
  list holds what the next calls of \<open>ReadMessage\<close> return, an error or a message; at
  its end the kernel has closed the connection and \<open>ReadMessage\<close> returns
  \<open>io.EOF\<close>.

  \<open>op\<close> and \<open>err\<close> are the named results of \<open>ReadOp\<close>. \<open>ReadOp_loop\<close> is the
  \<open>for\<close> loop, from the value that \<open>op\<close> has at the start of an iteration: nil at
  first, and the op of the frame before after a \<open>continue\<close>. The \<open>return\<close> after a
  failed \<open>ReadMessage\<close> returns that value of \<open>op\<close> beside the error. The result
  is the connection, \<open>op\<close>, \<open>err\<close> and the messages not yet read.
\<close>

fun ReadOp_loop ::
  "(message \<Rightarrow> error + decoded) \<Rightarrow> (Op \<Rightarrow> error option \<Rightarrow> byte list) \<Rightarrow> Op option
     \<Rightarrow> Connection \<Rightarrow> (error + message) list
     \<Rightarrow> panic + (Connection \<times> Op option \<times> error option \<times> (error + message) list)" where
  "ReadOp_loop Convert kernelResponse op c [] = Inr (c, op, Some EOF, [])"
| "ReadOp_loop Convert kernelResponse op c (Inl err # rest) = Inr (c, op, Some err, rest)"
| "ReadOp_loop Convert kernelResponse op c (Inr m # rest) =
     (let opID = nextOpID c;
          c1 = c\<lparr>nextOpID := nextOpID c + 1\<rparr>
      in case beginOp (Opcode (Hdr m)) (Unique (Hdr m)) c1 of
           Inl p \<Rightarrow> Inl p
         | Inr (c2, ctx) \<Rightarrow>
             (case Convert m of
                Inl err \<Rightarrow> Inr (c2, None, Some (Errorf (''fuseops.Convert: '' @ Error err)), rest)
              | Inr t \<Rightarrow>
                  (let op' = \<lparr>kind = kind t, ShortDesc = ShortDesc t, DebugString = DebugString t,
                              opCtx = ctx, frame = m, logOpID = opID\<rparr>;
                       c3 = debugLog opID (''<- '' @ ShortDesc op') c2
                   in case kind op' of
                        InternalStatFSOp \<Rightarrow>
                          (case Respond kernelResponse op' None c3 of
                             Inl p \<Rightarrow> Inl p
                           | Inr c4 \<Rightarrow> ReadOp_loop Convert kernelResponse (Some op') c4 rest)
                      | InternalInterruptOp fuseID \<Rightarrow>
                          ReadOp_loop Convert kernelResponse (Some op') (handleInterrupt fuseID c3) rest
                      | UserOp \<Rightarrow> Inr (c3, Some op', None, rest))))"

definition ReadOp ::
  "(message \<Rightarrow> error + decoded) \<Rightarrow> (Op \<Rightarrow> error option \<Rightarrow> byte list) \<Rightarrow> Connection
     \<Rightarrow> (error + message) list
     \<Rightarrow> panic + (Connection \<times> Op option \<times> error option \<times> (error + message) list)" where
  "ReadOp Convert kernelResponse c msgs = ReadOp_loop Convert kernelResponse None c msgs"

subsection \<open>Runs of the connection\<close>

text \<open>
  A run is a list of calls in the order in which they take effect: the reader calls
  \<open>ReadOp\<close>, or a handler calls the reply closure of one of the ops that \<open>ReadOp\<close>
  has returned with a nil error and that has no reply yet, with arguments of its choice
  (beside an error the caller does not take the op). An op leaves
  \<open>pending\<close> with its reply, so that each closure is called at most once. The
  registry is read and written under \<open>c.mu\<close> only, by \<open>recordCancelFunc\<close>,
  \<open>finishOp\<close> and \<open>handleInterrupt\<close>, each of which holds the mutex for its whole
  body; so the calls of concurrent handlers act on the registry one after the other, in
  some order, which is the order of the list.
\<close>

datatype step = CallReadOp | CallReply nat "64 word" "byte list" "error option"

record system =
  conn :: Connection
  inbox :: "(error + message) list"
  pending :: "Op list"

fun run ::
  "(message \<Rightarrow> error + decoded) \<Rightarrow> (Op \<Rightarrow> error option \<Rightarrow> byte list) \<Rightarrow> step list \<Rightarrow> system
     \<Rightarrow> panic + system" where
  "run Convert kernelResponse [] s = Inr s"
| "run Convert kernelResponse (CallReadOp # steps) s =
     (case ReadOp Convert kernelResponse (conn s) (inbox s) of
        Inl p \<Rightarrow> Inl p
      | Inr (c, op, err, rest) \<Rightarrow>
          run Convert kernelResponse steps
            (s\<lparr>conn := c, inbox := rest,
               pending := pending s @ (case (op, err) of (Some op', None) \<Rightarrow> [op'] | _ \<Rightarrow> [])\<rparr>))"
| "run Convert kernelResponse (CallReply k fuseID replyMsg opErr # steps) s =
     (if k < length (pending s) then
        (case sendReply (frame (pending s ! k)) (pending s ! k) fuseID replyMsg opErr (conn s) of
           Inl p \<Rightarrow> Inl p
         | Inr (c, err) \<Rightarrow>
             run Convert kernelResponse steps
               (s\<lparr>conn := c, pending := take k (pending s) @ drop (Suc k) (pending s)\<rparr>))
      else run Convert kernelResponse steps s)"

text \<open>How often the cancel function \<open>f\<close> has been called.\<close>

definition fired :: "nat \<Rightarrow> Connection \<Rightarrow> nat" where
  "fired f c = count_list (trace c) (EvCancel f)"

text \<open>The events between two states of one connection, and which of them are writes.\<close>

definition eventsSince :: "Connection \<Rightarrow> Connection \<Rightarrow> event list" where
  "eventsSince c c' = drop (length (trace c)) (trace c')"

fun isWrite :: "event \<Rightarrow> bool" where
  "isWrite (EvWriteToKernel b) = True"
| "isWrite e = False"

text \<open>The unique IDs of the ops of a list whose opcode is not forget.\<close>

definition live :: "Op list \<Rightarrow> 64 word list" where
  "live ops =
     map (\<lambda>op. Unique (Hdr (frame op))) (filter (\<lambda>op. Opcode (Hdr (frame op)) \<noteq> OpForget) ops)"

text \<open>
  Every message of the list converts, and to an op that is not an interrupt: each is
  returned to the caller or, for statfs, answered by \<open>ReadOp\<close> itself.
\<close>

definition delivers :: "(message \<Rightarrow> error + decoded) \<Rightarrow> (error + message) list \<Rightarrow> bool" where
  "delivers Convert msgs =
     list_all
       (\<lambda>x. case x of
              Inl e \<Rightarrow> True
            | Inr m \<Rightarrow>
                (case Convert m of
                   Inl e \<Rightarrow> False
                 | Inr t \<Rightarrow> (case kind t of InternalInterruptOp u \<Rightarrow> False | _ \<Rightarrow> True)))
       msgs"

subsection \<open>A connection and a conversion to run the code on\<close>

text \<open>
  A connection without loggers whose writes succeed; messages without payload; a
  conversion that knows statfs frames, takes every interrupt frame to target request 9,
  fails on opcode 0 and takes every other frame to a user op; replies without bytes.
\<close>

definition exConn :: Connection where
  "exConn = newConnection Background False False (\<lambda>b. None)"

definition exMessage :: "32 word \<Rightarrow> 64 word \<Rightarrow> message" where
  "exMessage opc u = \<lparr>Hdr = \<lparr>Opcode = opc, Unique = u\<rparr>, Data = []\<rparr>"

definition exConvert :: "message \<Rightarrow> error + decoded" where
  "exConvert m =
     (if Opcode (Hdr m) = OpStatfs
      then Inr \<lparr>kind = InternalStatFSOp, ShortDesc = ''StatFS'', DebugString = ''StatFS''\<rparr>
      else if Opcode (Hdr m) = OpInterrupt
      then Inr \<lparr>kind = InternalInterruptOp 9, ShortDesc = ''Interrupt'', DebugString = ''Interrupt''\<rparr>
      else if Opcode (Hdr m) = 0
      then Inl (Errorf ''bad opcode'')
      else Inr \<lparr>kind = UserOp, ShortDesc = ''Op'', DebugString = ''Op''\<rparr>)"

definition exResponse :: "Op \<Rightarrow> error option \<Rightarrow> byte list" where
  "exResponse op err = []"

definition exOp :: "Context \<Rightarrow> message \<Rightarrow> 32 word \<Rightarrow> Op" where
  "exOp ctx m n =
     \<lparr>kind = UserOp, ShortDesc = ''Op'', DebugString = ''Op'', opCtx = ctx, frame = m, logOpID = n\<rparr>"

section \<open>The forgetfs sample (samples/forgetfs/forget_fs.go)\<close>

type_synonym InodeID = "64 word"

text \<open>
  Modelled from the spec: \<open>fuseops.InodeAttributes\<close>, \<open>fuseops.ChildInodeEntry\<close>
  and \<open>fuseops.RootInodeID\<close> (package fuseops is not under src/; the spec leaves inode
  accounting to the file systems). Only the fields that the sample sets are kept; the
  root inode ID is that of the kernel protocol.
\<close>

record InodeAttributes =
  Nlink :: "64 word"
  Mode :: "32 word"

record ChildInodeEntry =
  Child :: InodeID
  Attributes :: InodeAttributes

definition RootInodeID :: InodeID where
  "RootInodeID = 1"

text \<open>An \<open>inode\<close>. \<open>lookupCount\<close> is a Go \<open>int\<close>: 64 bits, read as signed.\<close>

record inode =
  attributes :: InodeAttributes
  lookupCount :: "64 word"

text \<open>
  \<open>fsImpl\<close>. The Go map from inode ID to inode is a list of pairs, read with
  \<open>map_of\<close> and written with \<open>AList.update\<close>, so that \<open>checkInvariants\<close> can
  range over it.
\<close>

record fsImpl =
  inodes :: "(InodeID \<times> inode) list"
  nextInodeID :: InodeID

datatype fs_panic =
    NegativeLookupCount
  | UnexpectedlyLargeInodeID
  | UnknownInode InodeID
  | ForgottenInode InodeID

datatype errno = ENOENT

definition cannedID_Root :: InodeID where
  "cannedID_Root = RootInodeID + 0"

definition cannedID_Foo :: InodeID where
  "cannedID_Foo = RootInodeID + 1"

definition cannedID_Bar :: InodeID where
  "cannedID_Bar = RootInodeID + 2"

definition cannedID_Next :: InodeID where
  "cannedID_Next = RootInodeID + 3"

text \<open>\<open>os.ModeDir\<close> is the top bit of a 32-bit file mode; \<open>0777\<close> is octal.\<close>

definition ModeDir :: "32 word" where
  "ModeDir = push_bit 31 1"

definition NewFileSystem :: fsImpl where
  "NewFileSystem =
     \<lparr>inodes =
        [(cannedID_Root, \<lparr>attributes = \<lparr>Nlink = 1, Mode = or 511 ModeDir\<rparr>, lookupCount = 1\<rparr>),
         (cannedID_Foo, \<lparr>attributes = \<lparr>Nlink = 1, Mode = 511\<rparr>, lookupCount = 0\<rparr>),
         (cannedID_Bar, \<lparr>attributes = \<lparr>Nlink = 1, Mode = or 511 ModeDir\<rparr>, lookupCount = 0\<rparr>)],
      nextInodeID = cannedID_Next\<rparr>"

definition checkInvariants :: "fsImpl \<Rightarrow> fs_panic + unit" where
  "checkInvariants fs =
     (if \<not> list_all (\<lambda>(k, v). 0 \<le> sint (lookupCount v)) (inodes fs) then Inl NegativeLookupCount
      else if \<not> list_all (\<lambda>(k, v). k < nextInodeID fs) (inodes fs) then Inl UnexpectedlyLargeInodeID
      else Inr ())"

definition findInodeByID :: "fsImpl \<Rightarrow> InodeID \<Rightarrow> fs_panic + inode" where
  "findInodeByID fs id' =
     (case map_of (inodes fs) id' of
        None \<Rightarrow> Inl (UnknownInode id')
      | Some in' \<Rightarrow> if sint (lookupCount in') \<le> 0 then Inl (ForgottenInode id') else Inr in')"

text \<open>
  \<open>LookUpInode\<close>, for the op's \<open>Parent\<close> and \<open>Name\<close>: a panic, or the file system
  and what the op is answered with, the error or the entry. \<open>fs.mu\<close> is an invariant
  mutex, which can run \<open>checkInvariants\<close> when it is locked and unlocked; the lock is
  left out here, and what \<open>checkInvariants\<close> returns before and after is stated in
  the theorems.
\<close>

definition LookUpInode ::
  "InodeID \<Rightarrow> string \<Rightarrow> fsImpl \<Rightarrow> fs_panic + (fsImpl \<times> (errno + ChildInodeEntry))" where
  "LookUpInode Parent Name fs =
     (case findInodeByID fs Parent of
        Inl p \<Rightarrow> Inl p
      | Inr _ \<Rightarrow>
          (case (if Parent = cannedID_Root \<and> Name = ''foo'' then Some cannedID_Foo
                 else if Parent = cannedID_Root \<and> Name = ''bar'' then Some cannedID_Bar
                 else None) of
             None \<Rightarrow> Inr (fs, Inl ENOENT)
           | Some childID \<Rightarrow>
               (case findInodeByID fs childID of
                  Inl p \<Rightarrow> Inl p
                | Inr child \<Rightarrow>
                    Inr (fs\<lparr>inodes :=
                             AList.update childID (child\<lparr>lookupCount := lookupCount child + 1\<rparr>)
                               (inodes fs)\<rparr>,
                         Inr \<lparr>Child = childID, Attributes = attributes child\<rparr>))))"

definition GetInodeAttributes :: "InodeID \<Rightarrow> fsImpl \<Rightarrow> fs_panic + (fsImpl \<times> InodeAttributes)" where
  "GetInodeAttributes Inode fs =
     (case findInodeByID fs Inode of
        Inl p \<Rightarrow> Inl p
      | Inr in' \<Rightarrow> Inr (fs, attributes in'))"

text \<open>
  The calls that the file system serves, one after the other under \<open>fs.mu\<close>, from a
  given state: a panic ends the process.
\<close>

datatype fs_call = CallLookUpInode InodeID string | CallGetInodeAttributes InodeID

fun serve :: "fs_call list \<Rightarrow> fsImpl \<Rightarrow> fs_panic + fsImpl" where
  "serve [] fs = Inr fs"
| "serve (CallLookUpInode Parent Name # calls) fs =
     (case LookUpInode Parent Name fs of
        Inl p \<Rightarrow> Inl p
      | Inr (fs', r) \<Rightarrow> serve calls fs')"
| "serve (CallGetInodeAttributes Inode # calls) fs =
     (case GetInodeAttributes Inode fs of
        Inl p \<Rightarrow> Inl p
      | Inr (fs', a) \<Rightarrow> serve calls fs')"

section \<open>Properties of the registry\<close>

lemma cancelFuncs_emit [simp]: "cancelFuncs (emit e c) = cancelFuncs c"
  by (simp add: emit_def)

lemma trace_emit [simp]: "trace (emit e c) = trace c @ [e]"
  by (simp add: emit_def)

lemmas conn_defs =
  sendReply_def finishOp_def Logf_def debugLog_def WriteToKernel_def Destroy_def emit_def

lemmas reader_defs = ReadOp_def beginOp_def recordCancelFunc_def Respond_def handleInterrupt_def

lemmas ex_defs =
  exConn_def newConnection_def exMessage_def exConvert_def exResponse_def exOp_def
  OpForget_def OpStatfs_def OpInterrupt_def

text \<open>
  C4. For a frame whose opcode is forget, \<open>beginOp\<close> leaves the connection as it is
  (no registry entry is inserted) and returns the parent context itself, and
  \<open>finishOp\<close> leaves the connection as it is (no registry entry is removed).
\<close>

theorem forget_exempt:
  "beginOp OpForget fuseID c = Inr (c, parentCtx c) \<and> finishOp OpForget fuseID c = Inr c"
  by (simp add: beginOp_def finishOp_def)

text \<open>
  C6. \<open>recordCancelFunc\<close> panics exactly when the ID is already in the registry, and
  \<open>finishOp\<close> panics exactly when the opcode is not forget and the ID is not in the
  registry; otherwise each returns a connection.
\<close>

theorem registry_panics:
  "((\<exists>p. recordCancelFunc fuseID f c = Inl p) = (fuseID \<in> dom (cancelFuncs c))) \<and>
   ((\<exists>c'. recordCancelFunc fuseID f c = Inr c') = (fuseID \<notin> dom (cancelFuncs c))) \<and>
   ((\<exists>p. finishOp opCode fuseID c = Inl p) = (opCode \<noteq> OpForget \<and> fuseID \<notin> dom (cancelFuncs c))) \<and>
   ((\<exists>c'. finishOp opCode fuseID c = Inr c') = (\<not> (opCode \<noteq> OpForget \<and> fuseID \<notin> dom (cancelFuncs c))))"
  by (auto simp: recordCancelFunc_def finishOp_def Let_def split: option.splits)

section \<open>Properties of the reply closure\<close>

text \<open>
  C2. Whenever the reply closure returns, the events of the call hold one write to the
  kernel, that of the reply bytes, and for an opcode other than forget the removal of
  the frame's unique ID from the registry is among the events before that write. (A call
  in which \<open>finishOp\<close> panics does not reach the write.)
\<close>

theorem sendReply_removes_before_write:
  assumes "sendReply m op fuseID replyMsg opErr c = Inr (c', err)"
  shows "trace c' = trace c @ eventsSince c c' \<and>
         filter isWrite (eventsSince c c') = [EvWriteToKernel replyMsg] \<and>
         (Opcode (Hdr m) \<noteq> OpForget \<longrightarrow>
            EvDelete (Unique (Hdr m)) \<in> set (takeWhile (\<lambda>e. \<not> isWrite e) (eventsSince c c')))"
  using assms
  by (auto simp: conn_defs eventsSince_def Let_def split: sum.splits option.splits if_splits)

theorem sendReply_removes_before_write_witness:
  "sendReply (exMessage 1 7) (exOp Background (exMessage 1 7) 0) 7 [1, 2] None
     (exConn\<lparr>cancelFuncs := [7 \<mapsto> 0]\<rparr>) =
     Inr (exConn\<lparr>cancelFuncs := Map.empty,
                 trace := [EvCancel 0, EvDelete 7, EvWriteToKernel [1, 2], EvDestroy (exMessage 1 7)]\<rparr>,
          None) \<and>
   filter isWrite
     (eventsSince (exConn\<lparr>cancelFuncs := [7 \<mapsto> 0]\<rparr>)
        (exConn\<lparr>cancelFuncs := Map.empty,
                trace := [EvCancel 0, EvDelete 7, EvWriteToKernel [1, 2], EvDestroy (exMessage 1 7)]\<rparr>)) =
     [EvWriteToKernel [1, 2]] \<and>
   EvDelete 7 \<in> set (takeWhile (\<lambda>e. \<not> isWrite e)
     (eventsSince (exConn\<lparr>cancelFuncs := [7 \<mapsto> 0]\<rparr>)
        (exConn\<lparr>cancelFuncs := Map.empty,
                trace := [EvCancel 0, EvDelete 7, EvWriteToKernel [1, 2], EvDestroy (exMessage 1 7)]\<rparr>)))"
proof -
  have run: "sendReply (exMessage 1 7) (exOp Background (exMessage 1 7) 0) 7 [1, 2] None
     (exConn\<lparr>cancelFuncs := [7 \<mapsto> 0]\<rparr>) =
     Inr (exConn\<lparr>cancelFuncs := Map.empty,
                 trace := [EvCancel 0, EvDelete 7, EvWriteToKernel [1, 2], EvDestroy (exMessage 1 7)]\<rparr>,
          None)"
    by (simp add: conn_defs ex_defs)
  have nf: "Opcode (Hdr (exMessage 1 7)) \<noteq> OpForget"
    by (simp add: ex_defs)
  from sendReply_removes_before_write [OF run] nf run show ?thesis
    by (simp add: exMessage_def)
qed

text \<open>
  C9. The reply closure does not look at its \<open>fuseID\<close> parameter: two calls that
  differ in that argument alone have the same result, that is the same panic, or the
  same connection (registry, events logged, frame destroyed, bytes written) and the same
  returned error.
\<close>

theorem sendReply_ignores_fuseID:
  "sendReply m op fuseID replyMsg opErr c = sendReply m op fuseID' replyMsg opErr c"
  by (simp add: sendReply_def)

section \<open>Properties of interrupts\<close>

lemma handleInterrupt_present:
  "cancelFuncs c fuseID = Some f \<Longrightarrow> handleInterrupt fuseID c = emit (EvCancel f) c"
  by (simp add: handleInterrupt_def)

lemma fired_emit: "fired f (emit e c) = fired f c + (if e = EvCancel f then 1 else 0)"
  by (simp add: fired_def)

lemma interrupts_fire:
  "cancelFuncs c fuseID = Some f \<Longrightarrow>
     cancelFuncs ((handleInterrupt fuseID ^^ n) c) = cancelFuncs c \<and>
     fired f ((handleInterrupt fuseID ^^ n) c) = fired f c + n"
  by (induction n) (simp_all add: handleInterrupt_present fired_emit)

text \<open>
  C3, as stated, fails: an op with unique ID 9 is returned by \<open>ReadOp\<close>, an interrupt
  that targets 9 is read, and the op is answered. The cancel function of the entry, number
  0, has then been called twice, once by \<open>handleInterrupt\<close> and once by
  \<open>finishOp\<close>.
\<close>

theorem trigger_fired_twice:
  "run exConvert exResponse [CallReadOp, CallReadOp, CallReply 0 9 [] (Some (Errorf ''interrupted''))]
     \<lparr>conn = exConn, inbox = [Inr (exMessage 15 9), Inr (exMessage OpInterrupt 10)], pending = []\<rparr> =
   Inr \<lparr>conn = exConn\<lparr>nextOpID := 2, cancelFuncs := [10 \<mapsto> 1], nextCancel := 2,
                      trace := [EvRecord 9 0, EvRecord 10 1, EvCancel 0, EvCancel 0, EvDelete 9,
                                EvWriteToKernel [], EvDestroy (exMessage 15 9)]\<rparr>,
        inbox = [], pending = []\<rparr> \<and>
   fired 0 (exConn\<lparr>nextOpID := 2, cancelFuncs := [10 \<mapsto> 1], nextCancel := 2,
                  trace := [EvRecord 9 0, EvRecord 10 1, EvCancel 0, EvCancel 0, EvDelete 9,
                            EvWriteToKernel [], EvDestroy (exMessage 15 9)]\<rparr>) = 2"
  by (simp add: conn_defs reader_defs ex_defs fired_def Let_def)

text \<open>
  C3, amended. While an entry is in the registry, each interrupt for its ID calls its
  cancel function once and leaves the entry in place, and the reply commit calls it once
  more and removes the entry: after \<open>n\<close> interrupts and the reply the function has
  been called \<open>n + 1\<close> times, so at least once.
\<close>

theorem trigger_fired_per_interrupt_and_reply:
  assumes "cancelFuncs c fuseID = Some f" and "opCode \<noteq> OpForget"
  shows "\<exists>c'. finishOp opCode fuseID ((handleInterrupt fuseID ^^ n) c) = Inr c' \<and>
           fired f c' = fired f c + n + 1 \<and> cancelFuncs c' fuseID = None"
  using assms interrupts_fire [of c fuseID f n]
  by (simp add: finishOp_def Let_def fired_def emit_def)

theorem trigger_fired_per_interrupt_and_reply_witness:
  "cancelFuncs (exConn\<lparr>cancelFuncs := [9 \<mapsto> 0]\<rparr>) 9 = Some 0 \<and> (15 :: 32 word) \<noteq> OpForget \<and>
   (\<exists>c'. finishOp 15 9 ((handleInterrupt 9 ^^ 2) (exConn\<lparr>cancelFuncs := [9 \<mapsto> 0]\<rparr>)) = Inr c' \<and>
      fired 0 c' = fired 0 (exConn\<lparr>cancelFuncs := [9 \<mapsto> 0]\<rparr>) + 2 + 1 \<and> cancelFuncs c' 9 = None)"
proof -
  have 1: "cancelFuncs (exConn\<lparr>cancelFuncs := [9 \<mapsto> 0]\<rparr>) 9 = Some 0"
    by simp
  have 2: "(15 :: 32 word) \<noteq> OpForget"
    by (simp add: OpForget_def)
  from trigger_fired_per_interrupt_and_reply [OF 1 2, of 2] 1 2 show ?thesis
    by simp
qed

section \<open>Properties of the reader loop\<close>






text \<open>
  C7. \<open>handleInterrupt\<close> for an ID that has no entry returns the connection as it is:
  the registry and the events are the same, so no cancel function is called and nothing
  is written; the model of \<open>handleInterrupt\<close> has no panic because the code has none
  on this path. When \<open>ReadOp\<close> reads such an interrupt frame it goes on to the next
  frame, and the events of that step hold no write and no call of a cancel function;
  \<open>beginOp\<close> has registered the interrupt frame's own ID by then.
\<close>

theorem late_interrupt_silent:
  assumes "cancelFuncs c fuseID = None"
  shows "handleInterrupt fuseID c = c \<and>
         (Convert m = Inr t \<and> kind t = InternalInterruptOp fuseID \<and> Opcode (Hdr m) \<noteq> OpForget \<and>
          cancelFuncs c (Unique (Hdr m)) = None \<and> fuseID \<noteq> Unique (Hdr m) \<longrightarrow>
            (\<exists>c'. ReadOp Convert kr c (Inr m # rest) =
                     ReadOp_loop Convert kr
                       (Some \<lparr>kind = InternalInterruptOp fuseID, ShortDesc = ShortDesc t,
                              DebugString = DebugString t,
                              opCtx = WithCancel (parentCtx c) (nextCancel c), frame = m,
                              logOpID = nextOpID c\<rparr>) c' rest \<and>
               trace c' = trace c @ eventsSince c c' \<and>
               filter isWrite (eventsSince c c') = [] \<and>
               (\<forall>f. fired f c' = fired f c) \<and>
               cancelFuncs c' = (cancelFuncs c)(Unique (Hdr m) \<mapsto> nextCancel c)))"
proof (intro conjI impI)
  from assms show "handleInterrupt fuseID c = c"
    by (simp add: handleInterrupt_def)
next
  assume "Convert m = Inr t \<and> kind t = InternalInterruptOp fuseID \<and> Opcode (Hdr m) \<noteq> OpForget \<and>
          cancelFuncs c (Unique (Hdr m)) = None \<and> fuseID \<noteq> Unique (Hdr m)"
  with assms
  show "\<exists>c'. ReadOp Convert kr c (Inr m # rest) =
                     ReadOp_loop Convert kr
                       (Some \<lparr>kind = InternalInterruptOp fuseID, ShortDesc = ShortDesc t,
                              DebugString = DebugString t,
                              opCtx = WithCancel (parentCtx c) (nextCancel c), frame = m,
                              logOpID = nextOpID c\<rparr>) c' rest \<and>
               trace c' = trace c @ eventsSince c c' \<and>
               filter isWrite (eventsSince c c') = [] \<and>
               (\<forall>f. fired f c' = fired f c) \<and>
               cancelFuncs c' = (cancelFuncs c)(Unique (Hdr m) \<mapsto> nextCancel c)"
    apply (cases "debugLogger c")
     apply (simp_all add: reader_defs conn_defs eventsSince_def fired_def Let_def)
     apply (rule exI, rule conjI, rule refl, simp)+
    done
qed

theorem late_interrupt_silent_witness:
  "cancelFuncs exConn 9 = None \<and> handleInterrupt 9 exConn = exConn \<and>
   ReadOp exConvert exResponse exConn [Inr (exMessage OpInterrupt 10)] =
     Inr (exConn\<lparr>nextOpID := 1, cancelFuncs := [10 \<mapsto> 0], nextCancel := 1,
                 trace := [EvRecord 10 0]\<rparr>,
          Some \<lparr>kind = InternalInterruptOp 9, ShortDesc = ''Interrupt'', DebugString = ''Interrupt'',
                opCtx = WithCancel Background 0, frame = exMessage OpInterrupt 10, logOpID = 0\<rparr>,
          Some EOF, [])"
proof -
  have a: "cancelFuncs exConn 9 = None"
    by (simp add: ex_defs)
  from late_interrupt_silent [OF a] have "handleInterrupt 9 exConn = exConn"
    by blast
  with a show ?thesis
    by (simp add: conn_defs reader_defs ex_defs Let_def)
qed



section \<open>Properties of runs\<close>

lemma live_append: "live (xs @ ys) = live xs @ live ys"
  by (simp add: live_def)

lemma live_remove:
  assumes "k < length ops" and "distinct (live ops)"
  shows "set (live (take k ops @ drop (Suc k) ops)) = set (live ops) - set (live [ops ! k]) \<and>
         distinct (live (take k ops @ drop (Suc k) ops))"
proof -
  from assms(1) have "ops = take k ops @ [ops ! k] @ drop (Suc k) ops"
    by (simp add: id_take_nth_drop)
  then have "live ops = live (take k ops) @ live [ops ! k] @ live (drop (Suc k) ops)"
    by (metis live_append)
  with assms(2) show ?thesis
    by (auto simp: live_append)
qed

lemma sendReply_registry:
  assumes "sendReply m op fuseID replyMsg opErr c = Inr (c', err)"
  shows "dom (cancelFuncs c') = dom (cancelFuncs c) - set (live [op\<lparr>frame := m\<rparr>]) \<and>
         set (live [op\<lparr>frame := m\<rparr>]) \<subseteq> dom (cancelFuncs c)"
  using assms
  by (auto simp: conn_defs live_def Let_def split: sum.splits option.splits if_splits)

lemma statfs_continue:
  assumes "Convert m = Inr t" and "kind t = InternalStatFSOp"
    and "ReadOp_loop Convert kr op0 c (Inr m # rest) = Inr res"
  shows "\<exists>c4 op1. ReadOp_loop Convert kr op1 c4 rest = Inr res \<and> cancelFuncs c4 = cancelFuncs c"
  using assms
  apply (cases "Opcode (Hdr m) = OpForget"; cases "cancelFuncs c (Unique (Hdr m))"; cases "debugLogger c")
         apply (simp_all add: reader_defs conn_defs Let_def)
     apply (rule exI, rule conjI, rule exI, assumption, simp add: fun_upd_idem)+
  done

lemma ReadOp_registry:
  "ReadOp_loop Convert kr op0 c msgs = Inr (c', op, err, rest) \<Longrightarrow> delivers Convert msgs \<Longrightarrow>
     delivers Convert rest \<and>
     (case err of
        Some e \<Rightarrow> dom (cancelFuncs c') = dom (cancelFuncs c)
      | None \<Rightarrow> (\<exists>o'. op = Some o' \<and>
                   dom (cancelFuncs c') = dom (cancelFuncs c) \<union> set (live [o']) \<and>
                   set (live [o']) \<inter> dom (cancelFuncs c) = {}))"
proof (induction msgs arbitrary: c op0)
  case Nil
  then show ?case by (auto simp: delivers_def)
next
  case (Cons x msgs)
  show ?case
  proof (cases x)
    case (Inl e)
    with Cons.prems show ?thesis by (auto simp: delivers_def)
  next
    case (Inr m)
    from Cons.prems(2) Inr have tail: "delivers Convert msgs"
      by (simp add: delivers_def)
    from Cons.prems(2) Inr obtain t where t: "Convert m = Inr t"
      and k: "kind t = UserOp \<or> kind t = InternalStatFSOp"
      by (auto simp: delivers_def split: sum.splits optype.splits)
    from k show ?thesis
    proof
      assume "kind t = UserOp"
      with Cons.prems(1) Inr t tail show ?thesis
        by (auto simp: reader_defs conn_defs live_def Let_def split: sum.splits if_splits option.splits)
    next
      assume s: "kind t = InternalStatFSOp"
      from Cons.prems(1) Inr have "ReadOp_loop Convert kr op0 c (Inr m # msgs) = Inr (c', op, err, rest)"
        by simp
      from statfs_continue [OF t s this] obtain c4 op1 where
        c4: "ReadOp_loop Convert kr op1 c4 msgs = Inr (c', op, err, rest)"
        and same: "cancelFuncs c4 = cancelFuncs c"
        by blast
      from Cons.IH [OF c4 tail] show ?thesis unfolding same .
    qed
  qed
qed

lemma run_registry:
  "run Convert kr steps s = Inr s' \<Longrightarrow> delivers Convert (inbox s) \<Longrightarrow>
     dom (cancelFuncs (conn s)) = set (live (pending s)) \<Longrightarrow> distinct (live (pending s)) \<Longrightarrow>
     dom (cancelFuncs (conn s')) = set (live (pending s')) \<and> distinct (live (pending s'))"
proof (induction steps arbitrary: s)
  case Nil
  then show ?case by simp
next
  case (Cons step steps)
  show ?case
  proof (cases step)
    case CallReadOp
    with Cons.prems(1) obtain c op err rest where
      ro: "ReadOp Convert kr (conn s) (inbox s) = Inr (c, op, err, rest)"
      by (auto split: sum.splits)
    then have "ReadOp_loop Convert kr None (conn s) (inbox s) = Inr (c, op, err, rest)"
      by (simp add: ReadOp_def)
    note reg = ReadOp_registry [OF this Cons.prems(2)]
    show ?thesis
    proof (cases err)
      case (Some e)
      let ?s = "s\<lparr>conn := c, inbox := rest\<rparr>"
      from Cons.prems(1) CallReadOp ro Some
      have 1: "run Convert kr steps ?s = Inr s'"
        by (simp split: option.splits)
      from reg have 2: "delivers Convert (inbox ?s)"
        by simp
      from reg Some Cons.prems(3)
      have 3: "dom (cancelFuncs (conn ?s)) = set (live (pending ?s))"
        by simp
      from Cons.prems(4) have 4: "distinct (live (pending ?s))"
        by simp
      from Cons.IH [OF 1 2 3 4] show ?thesis .
    next
      case None
      with reg obtain o' where o': "op = Some o'"
        and d: "dom (cancelFuncs c) = dom (cancelFuncs (conn s)) \<union> set (live [o'])"
        and n: "set (live [o']) \<inter> dom (cancelFuncs (conn s)) = {}"
        by auto
      let ?s = "s\<lparr>conn := c, inbox := rest, pending := pending s @ [o']\<rparr>"
      from Cons.prems(1) CallReadOp ro None o'
      have 1: "run Convert kr steps ?s = Inr s'"
        by simp
      from reg have 2: "delivers Convert (inbox ?s)"
        by simp
      from d Cons.prems(3)
      have 3: "dom (cancelFuncs (conn ?s)) = set (live (pending ?s))"
        by (simp add: live_append)
      have "distinct (live [o'])"
        by (simp add: live_def)
      with n Cons.prems(3,4)
      have 4: "distinct (live (pending ?s))"
        by (auto simp: live_append)
      from Cons.IH [OF 1 2 3 4] show ?thesis .
    qed
  next
    case (CallReply k fuseID replyMsg opErr)
    show ?thesis
    proof (cases "k < length (pending s)")
      case False
      with Cons.prems(1) CallReply have "run Convert kr steps s = Inr s'"
        by simp
      from Cons.IH [OF this Cons.prems(2-4)] show ?thesis .
    next
      case True
      let ?op = "pending s ! k"
      from True Cons.prems(1) CallReply obtain c err where
        sr: "sendReply (frame ?op) ?op fuseID replyMsg opErr (conn s) = Inr (c, err)"
        by (auto split: sum.splits)
      let ?s = "s\<lparr>conn := c, pending := take k (pending s) @ drop (Suc k) (pending s)\<rparr>"
      from True Cons.prems(1) CallReply sr
      have 1: "run Convert kr steps ?s = Inr s'"
        by simp
      from Cons.prems(2) have 2: "delivers Convert (inbox ?s)"
        by simp
      from sendReply_registry [OF sr] live_remove [OF True Cons.prems(4)] Cons.prems(3)
      have 3: "dom (cancelFuncs (conn ?s)) = set (live (pending ?s))"
        and 4: "distinct (live (pending ?s))"
        by simp_all
      from Cons.IH [OF 1 2 3 4] show ?thesis .
    qed
  qed
qed

text \<open>
  C1, as stated, fails: a forget frame with unique ID 12 is read, then a lookup frame
  that reuses the ID 12, then the reply closure of the forget op is called. The registry
  still holds an entry for 12 after that, the entry of the lookup op.
\<close>

theorem forget_reply_leaves_reused_id:
  "run exConvert exResponse [CallReadOp, CallReadOp, CallReply 0 12 [] None]
     \<lparr>conn = exConn, inbox = [Inr (exMessage OpForget 12), Inr (exMessage 1 12)], pending = []\<rparr> =
   Inr \<lparr>conn = exConn\<lparr>nextOpID := 2, cancelFuncs := [12 \<mapsto> 0], nextCancel := 1,
                      trace := [EvRecord 12 0, EvWriteToKernel [], EvDestroy (exMessage OpForget 12)]\<rparr>,
        inbox = [], pending = [exOp (WithCancel Background 0) (exMessage 1 12) 1]\<rparr> \<and>
   cancelFuncs (exConn\<lparr>nextOpID := 2, cancelFuncs := [12 \<mapsto> 0], nextCancel := 1,
                      trace := [EvRecord 12 0, EvWriteToKernel [], EvDestroy (exMessage OpForget 12)]\<rparr>)
     (Unique (Hdr (exMessage OpForget 12))) = Some 0"
  by (simp add: conn_defs reader_defs ex_defs Let_def)

text \<open>
  C1, amended. After the reply closure of a frame whose opcode is not forget has
  returned, the registry has no entry for the frame's unique ID. In every run that starts
  with an empty registry and no op pending, in which every frame read converts to a user
  op or a statfs op, and that does not panic, the registry holds exactly the unique IDs
  of the ops, other than forget ops, that \<open>ReadOp\<close> has returned and whose reply
  closure has not been called; it is empty once no op is pending.
\<close>

theorem registry_pairing:
  "(Opcode (Hdr m) \<noteq> OpForget \<and> sendReply m op fuseID replyMsg opErr c = Inr (c', err) \<longrightarrow>
      cancelFuncs c' (Unique (Hdr m)) = None) \<and>
   (cancelFuncs c0 = Map.empty \<and> delivers Convert msgs \<and>
    run Convert kr steps \<lparr>conn = c0, inbox = msgs, pending = []\<rparr> = Inr s \<longrightarrow>
      dom (cancelFuncs (conn s)) = set (live (pending s)) \<and>
      (pending s = [] \<longrightarrow> cancelFuncs (conn s) = Map.empty))"
proof (intro conjI impI)
  assume "Opcode (Hdr m) \<noteq> OpForget \<and> sendReply m op fuseID replyMsg opErr c = Inr (c', err)"
  then show "cancelFuncs c' (Unique (Hdr m)) = None"
    by (auto simp: conn_defs Let_def split: sum.splits option.splits if_splits)
next
  assume a: "cancelFuncs c0 = Map.empty \<and> delivers Convert msgs \<and>
    run Convert kr steps \<lparr>conn = c0, inbox = msgs, pending = []\<rparr> = Inr s"
  then have "dom (cancelFuncs (conn s)) = set (live (pending s)) \<and> distinct (live (pending s))"
    by (intro run_registry [of Convert kr steps "\<lparr>conn = c0, inbox = msgs, pending = []\<rparr>" s])
       (simp_all add: live_def)
  then show d: "dom (cancelFuncs (conn s)) = set (live (pending s))"
    by simp
  assume "pending s = []"
  with d show "cancelFuncs (conn s) = Map.empty"
    by (simp add: live_def)
qed

theorem registry_pairing_witness:
  "sendReply (exMessage 1 7) (exOp Background (exMessage 1 7) 0) 7 [] None
     (exConn\<lparr>cancelFuncs := [7 \<mapsto> 0]\<rparr>) =
     Inr (exConn\<lparr>cancelFuncs := Map.empty,
                 trace := [EvCancel 0, EvDelete 7, EvWriteToKernel [], EvDestroy (exMessage 1 7)]\<rparr>,
          None) \<and>
   cancelFuncs (exConn\<lparr>cancelFuncs := Map.empty,
                 trace := [EvCancel 0, EvDelete 7, EvWriteToKernel [], EvDestroy (exMessage 1 7)]\<rparr>)
     (Unique (Hdr (exMessage 1 7))) = None \<and>
   delivers exConvert [Inr (exMessage 1 7), Inr (exMessage OpStatfs 8), Inr (exMessage OpForget 7),
                       Inr (exMessage 3 9)] \<and>
   run exConvert exResponse
     [CallReadOp, CallReadOp, CallReadOp, CallReply 1 0 [] None, CallReply 1 0 [] None, CallReply 0 0 [] None]
     \<lparr>conn = exConn,
      inbox = [Inr (exMessage 1 7), Inr (exMessage OpStatfs 8), Inr (exMessage OpForget 7),
               Inr (exMessage 3 9)],
      pending = []\<rparr> =
     Inr \<lparr>conn = exConn\<lparr>nextOpID := 4, cancelFuncs := Map.empty, nextCancel := 3,
                        trace := [EvRecord 7 0, EvRecord 8 1, EvCancel 1, EvDelete 8, EvWriteToKernel [],
                                  EvDestroy (exMessage OpStatfs 8), EvRecord 9 2,
                                  EvWriteToKernel [], EvDestroy (exMessage OpForget 7),
                                  EvCancel 2, EvDelete 9, EvWriteToKernel [], EvDestroy (exMessage 3 9),
                                  EvCancel 0, EvDelete 7, EvWriteToKernel [], EvDestroy (exMessage 1 7)]\<rparr>,
          inbox = [], pending = []\<rparr> \<and>
   cancelFuncs (exConn\<lparr>nextOpID := 4, cancelFuncs := Map.empty, nextCancel := 3,
                        trace := [EvRecord 7 0, EvRecord 8 1, EvCancel 1, EvDelete 8, EvWriteToKernel [],
                                  EvDestroy (exMessage OpStatfs 8), EvRecord 9 2,
                                  EvWriteToKernel [], EvDestroy (exMessage OpForget 7),
                                  EvCancel 2, EvDelete 9, EvWriteToKernel [], EvDestroy (exMessage 3 9),
                                  EvCancel 0, EvDelete 7, EvWriteToKernel [], EvDestroy (exMessage 1 7)]\<rparr>) =
     Map.empty"
  using registry_pairing [where m = "exMessage 1 7" and op = "exOp Background (exMessage 1 7) 0"
      and fuseID = 7 and replyMsg = "[]" and opErr = None and c = "exConn\<lparr>cancelFuncs := [7 \<mapsto> 0]\<rparr>"
      and ?c0.0 = exConn and Convert = exConvert and kr = exResponse
      and msgs = "[Inr (exMessage 1 7), Inr (exMessage OpStatfs 8), Inr (exMessage OpForget 7),
                   Inr (exMessage 3 9)]"
      and steps = "[CallReadOp, CallReadOp, CallReadOp, CallReply 1 0 [] None, CallReply 1 0 [] None,
                    CallReply 0 0 [] None]"]
  by (simp add: conn_defs reader_defs ex_defs delivers_def Let_def)


section \<open>Properties of forgetfs\<close>

lemmas fs_defs =
  NewFileSystem_def checkInvariants_def LookUpInode_def GetInodeAttributes_def
  findInodeByID_def cannedID_Root_def cannedID_Foo_def cannedID_Bar_def cannedID_Next_def
  RootInodeID_def ModeDir_def

lemma NewFileSystem_invariants: "checkInvariants NewFileSystem = Inr ()"
  by (simp add: fs_defs)

lemma LookUpInode_NewFileSystem:
  "LookUpInode Parent Name NewFileSystem = Inr (fs', r) \<Longrightarrow> fs' = NewFileSystem"
  by (auto simp: fs_defs split: sum.splits option.splits if_splits)

lemma GetInodeAttributes_same:
  "GetInodeAttributes Inode fs = Inr (fs', a) \<Longrightarrow> fs' = fs"
  by (auto simp: GetInodeAttributes_def split: sum.splits)

lemma serve_NewFileSystem:
  "serve calls NewFileSystem = Inr fs \<Longrightarrow> fs = NewFileSystem"
proof (induction calls)
  case Nil
  then show ?case by simp
next
  case (Cons call calls)
  show ?case
  proof (cases call)
    case (CallLookUpInode Parent Name)
    with Cons.prems obtain fs' r where
      l: "LookUpInode Parent Name NewFileSystem = Inr (fs', r)" and s: "serve calls fs' = Inr fs"
      by (auto split: sum.splits)
    from LookUpInode_NewFileSystem [OF l] s Cons.IH show ?thesis by simp
  next
    case (CallGetInodeAttributes Inode)
    with Cons.prems obtain fs' a where
      g: "GetInodeAttributes Inode NewFileSystem = Inr (fs', a)" and s: "serve calls fs' = Inr fs"
      by (auto split: sum.splits)
    from GetInodeAttributes_same [OF g] s Cons.IH show ?thesis by simp
  qed
qed

text \<open>
  C10. Whatever calls of \<open>LookUpInode\<close> and \<open>GetInodeAttributes\<close> the new file system
  has served, the invariants of \<open>fsImpl\<close> hold (every lookup count is at least 0, every
  inode ID is less than \<open>nextInodeID\<close>), and they hold again after every further call
  of either operation that returns. (From these states a lookup of foo or bar does not
  return: the child's count is 0 and \<open>findInodeByID\<close> panics before the count is
  incremented.)
\<close>

theorem forgetfs_invariants_preserved:
  assumes "serve calls NewFileSystem = Inr fs"
  shows "checkInvariants fs = Inr () \<and>
         (LookUpInode Parent Name fs = Inr (fs', r) \<longrightarrow> checkInvariants fs' = Inr ()) \<and>
         (GetInodeAttributes Inode fs = Inr (fs'', a) \<longrightarrow> checkInvariants fs'' = Inr ())"
proof -
  from assms have fs: "fs = NewFileSystem"
    by (rule serve_NewFileSystem)
  show ?thesis
    unfolding fs
    using NewFileSystem_invariants LookUpInode_NewFileSystem [of Parent Name fs' r]
      GetInodeAttributes_same [of Inode NewFileSystem fs'' a]
    by auto
qed

theorem forgetfs_invariants_preserved_witness:
  "serve [CallGetInodeAttributes cannedID_Root, CallLookUpInode cannedID_Root ''baz''] NewFileSystem =
     Inr NewFileSystem \<and>
   checkInvariants NewFileSystem = Inr () \<and>
   LookUpInode cannedID_Root ''qux'' NewFileSystem = Inr (NewFileSystem, Inl ENOENT) \<and>
   GetInodeAttributes cannedID_Root NewFileSystem =
     Inr (NewFileSystem, \<lparr>Nlink = 1, Mode = or 511 ModeDir\<rparr>)"
proof -
  have s: "serve [CallGetInodeAttributes cannedID_Root, CallLookUpInode cannedID_Root ''baz'']
             NewFileSystem = Inr NewFileSystem"
    by (simp add: fs_defs)
  have l: "LookUpInode cannedID_Root ''qux'' NewFileSystem = Inr (NewFileSystem, Inl ENOENT)"
    by (simp add: fs_defs)
  have g: "GetInodeAttributes cannedID_Root NewFileSystem =
             Inr (NewFileSystem, \<lparr>Nlink = 1, Mode = or 511 ModeDir\<rparr>)"
    by (simp add: fs_defs)
  from forgetfs_invariants_preserved [OF s] have "checkInvariants NewFileSystem = Inr ()"
    by blast
  with s l g show ?thesis
    by (intro conjI)
qed

end
